theory Spec2Isabelle
  imports Complex_Main "HOL-Library.AList"
begin

section \<open>JSON values and Python dictionaries\<close>

text \<open>
  Schemas, extracted data and extraction results are Python values built by \<^verbatim>\<open>json.loads\<close>:
  \<^verbatim>\<open>None\<close>, booleans, integers, floats, strings, lists and dictionaries with string keys.
  A dictionary is an association list in insertion order whose keys are distinct (the
  invariant of a Python \<^verbatim>\<open>dict\<close>). Python floats are modelled by exact rationals.
\<close>

datatype json =
    JNull
  | JBool bool
  | JInt int
  | JFloat rat
  | JStr string
  | JArr "json list"
  | JObj "(string \<times> json) list"

text \<open>\<^verbatim>\<open>k in d\<close> for a dictionary \<open>d\<close>.\<close>

fun has_key :: "string \<Rightarrow> json \<Rightarrow> bool" where
  "has_key k (JObj kvs) = (k \<in> set (map fst kvs))"
| "has_key k _ = False"

text \<open>\<^verbatim>\<open>d[k]\<close>, as an option: \<open>None\<close> stands for the missing key.\<close>

fun py_get :: "string \<Rightarrow> json \<Rightarrow> json option" where
  "py_get k (JObj kvs) = map_of kvs k"
| "py_get k _ = None"

text \<open>\<^verbatim>\<open>d.items()\<close>.\<close>

fun py_items :: "json \<Rightarrow> (string \<times> json) list" where
  "py_items (JObj kvs) = kvs"
| "py_items _ = []"

text \<open>\<^verbatim>\<open>schema['properties'].items()\<close>, empty when the key is missing.\<close>

definition properties :: "json \<Rightarrow> (string \<times> json) list" where
  "properties schema = (case py_get ''properties'' schema of Some p \<Rightarrow> py_items p | None \<Rightarrow> [])"

text \<open>\<^verbatim>\<open>d.update(e)\<close>: every item of \<open>e\<close> is stored in \<open>d\<close>, in the order of \<open>e\<close>; a key
  already present keeps its position.\<close>

definition dict_update :: "(string \<times> 'v) list \<Rightarrow> (string \<times> 'v) list \<Rightarrow> (string \<times> 'v) list" where
  "dict_update d e = fold (\<lambda>(k, v) acc. AList.update k v acc) e d"

text \<open>
  The schemas the analyser is written for: a dictionary whose \<^verbatim>\<open>properties\<close> entry, where
  present, is a dictionary of schemas, whose \<^verbatim>\<open>items\<close> entry, where present, is a schema and
  whose \<^verbatim>\<open>enum\<close> entry, where present, is a list. On any other value the source raises
  \<^verbatim>\<open>TypeError\<close> or \<^verbatim>\<open>AttributeError\<close> (or tests substrings of a string), and the theorems
  below do not speak of it.
\<close>

lemma size_member [termination_simp]:
  "(k, v) \<in> set kvs \<Longrightarrow> size v < Suc (size_list (size_prod (\<lambda>x. 0) size) kvs)"
  by (induction kvs) auto

lemma size_py_get [termination_simp]:
  "py_get k j = Some v \<Longrightarrow> size v < size j"
  by (cases j) (auto dest!: map_of_SomeD size_member)

lemma size_py_items [termination_simp]:
  "(k, v) \<in> set (py_items j) \<Longrightarrow> size v < size j"
  by (cases j) (auto dest!: size_member)

lemma size_properties [termination_simp]:
  "(k, v) \<in> set (properties schema) \<Longrightarrow> size v < size schema"
proof (cases "py_get ''properties'' schema")
  case None
  assume "(k, v) \<in> set (properties schema)"
  with None show ?thesis by (simp add: properties_def)
next
  case (Some p)
  assume "(k, v) \<in> set (properties schema)"
  with Some have "size v < size p"
    by (simp add: properties_def size_py_items)
  also have "size p < size schema"
    using Some by (rule size_py_get)
  finally show ?thesis .
qed

text \<open>\<^verbatim>\<open>isinstance(x, dict)\<close>, \<^verbatim>\<open>isinstance(x, list)\<close> and the invariant of a dictionary.\<close>

fun is_dict :: "json \<Rightarrow> bool" where
  "is_dict (JObj kvs) = True"
| "is_dict _ = False"

definition distinct_keys :: "json \<Rightarrow> bool" where
  "distinct_keys d = distinct (map fst (py_items d))"

fun is_list :: "json \<Rightarrow> bool" where
  "is_list (JArr xs) = True"
| "is_list _ = False"

fun is_schema :: "json \<Rightarrow> bool" where
  "is_schema schema =
     (is_dict schema \<and> distinct_keys schema \<and>
      (case py_get ''properties'' schema of
         None \<Rightarrow> True
       | Some p \<Rightarrow> is_dict p \<and> distinct_keys p \<and> list_all (\<lambda>(k, v). is_schema v) (properties schema)) \<and>
      (case py_get ''items'' schema of
         None \<Rightarrow> True
       | Some i \<Rightarrow> is_schema i) \<and>
      (case py_get ''enum'' schema of
         None \<Rightarrow> True
       | Some e \<Rightarrow> is_list e))"

section \<open>Schema metrics (utils.py)\<close>

fun flatten_schema :: "json \<Rightarrow> string \<Rightarrow> (string \<times> json) list" where
  "flatten_schema schema prefix =
     (if has_key ''properties'' schema then
        fold (\<lambda>(key, value) flattened.
                let full_key = (if prefix \<noteq> [] then prefix @ ''.'' @ key else key) in
                if has_key ''properties'' value
                then dict_update flattened (flatten_schema value full_key)
                else AList.update full_key value flattened)
             (properties schema) []
      else [])"

fun calculate_schema_depth :: "json \<Rightarrow> nat \<Rightarrow> nat" where
  "calculate_schema_depth schema current_depth =
     (if has_key ''properties'' schema then
        fold (\<lambda>(key, value) max_depth.
                if has_key ''properties'' value
                then max max_depth (calculate_schema_depth value (current_depth + 1))
                else max_depth)
             (properties schema) current_depth
      else current_depth)"

fun count_schema_objects :: "json \<Rightarrow> nat" where
  "count_schema_objects schema =
     (if has_key ''properties'' schema then
        fold (\<lambda>(key, value) count.
                if py_get ''type'' value = Some (JStr ''object'') \<or> has_key ''properties'' value
                then count + 1 + count_schema_objects value
                else count)
             (properties schema) 0
      else 0)"

text \<open>\<^verbatim>\<open>len(x)\<close> of a list, string or dictionary (the source raises on other values).\<close>

fun py_len :: "json \<Rightarrow> nat" where
  "py_len (JArr xs) = length xs"
| "py_len (JStr s) = length s"
| "py_len (JObj kvs) = length kvs"
| "py_len _ = 0"

fun count_enum_values :: "json \<Rightarrow> nat" where
  "count_enum_values schema =
     (let count = (case py_get ''enum'' schema of Some e \<Rightarrow> py_len e | None \<Rightarrow> 0);
          count = (if has_key ''properties'' schema
                   then fold (\<lambda>(key, value) count. count + count_enum_values value)
                          (properties schema) count
                   else count);
          count = (case py_get ''items'' schema of
                     Some i \<Rightarrow> count + count_enum_values i
                   | None \<Rightarrow> count)
      in count)"

section \<open>Schema complexity analysis (schema_analyzer.py)\<close>

text \<open>\<^verbatim>\<open>_count_required_fields\<close>; its \<open>path\<close> argument is built and never read.\<close>

fun count_required_fields :: "json \<Rightarrow> nat" where
  "count_required_fields schema =
     (let count = (case py_get ''required'' schema of
                     Some (JArr r) \<Rightarrow> length r
                   | _ \<Rightarrow> 0)
      in if has_key ''properties'' schema
         then fold (\<lambda>(key, value) count. count + count_required_fields value)
                (properties schema) count
         else count)"

record metrics =
  max_depth :: int
  total_fields :: int
  object_count :: int
  enum_complexity :: int
  estimated_tokens :: int
  required_fields :: int

record analysis =
  metrics :: metrics
  complexity_score :: int
  strategy :: string
  needs_chunking :: bool

text \<open>\<^verbatim>\<open>int(x)\<close> of a float: truncation towards zero.\<close>

definition py_int :: "rat \<Rightarrow> int" where
  "py_int x = (if 0 \<le> x then \<lfloor>x\<rfloor> else \<lceil>x\<rceil>)"

text \<open>
  \<^verbatim>\<open>_calculate_complexity_score\<close>. The two divisions are Python's true division, so the
  running score is a float from the second summand on.
\<close>

definition calculate_complexity_score :: "metrics \<Rightarrow> int" where
  "calculate_complexity_score m =
     (let score = (0 :: rat);
          depth_score = min 30 (max_depth m * 5);
          score = score + of_int depth_score;
          field_score = min 25 (of_int (total_fields m) / 10);
          score = score + field_score;
          object_score = min 25 (object_count m * 2);
          score = score + of_int object_score;
          enum_score = min 20 (of_int (enum_complexity m) / 50);
          score = score + enum_score
      in py_int score)"

text \<open>\<^verbatim>\<open>_determine_strategy\<close>; \<open>max_tokens_per_chunk\<close> is the analyser's attribute.\<close>

definition determine_strategy :: "int \<Rightarrow> metrics \<Rightarrow> string" where
  "determine_strategy max_tokens_per_chunk m =
     (if estimated_tokens m > max_tokens_per_chunk then ''multi_pass_chunked''
      else if max_depth m > 1 \<or> object_count m > 1 then ''multi_pass_hierarchical''
      else ''single_pass'')"

text \<open>
  \<^verbatim>\<open>analyze_complexity\<close>. The token estimator \<^verbatim>\<open>estimate_schema_tokens\<close> counts the tokens
  of the serialised schema with an external tokeniser; it is the parameter \<open>est\<close>.
\<close>

definition analyze_complexity :: "(json \<Rightarrow> int) \<Rightarrow> int \<Rightarrow> json \<Rightarrow> analysis" where
  "analyze_complexity est max_tokens_per_chunk schema =
     (let m = \<lparr> max_depth = int (calculate_schema_depth schema 0),
                  total_fields = int (length (flatten_schema schema [])),
                  object_count = int (count_schema_objects schema),
                  enum_complexity = int (count_enum_values schema),
                  estimated_tokens = est schema,
                  required_fields = int (count_required_fields schema) \<rparr>
      in \<lparr> metrics = m,
           complexity_score = calculate_complexity_score m,
           strategy = determine_strategy max_tokens_per_chunk m,
           needs_chunking = (estimated_tokens m > max_tokens_per_chunk) \<rparr>)"

text \<open>The score as the specification words it, over the four metrics it names.\<close>

definition spec_complexity_score :: "int \<Rightarrow> int \<Rightarrow> int \<Rightarrow> int \<Rightarrow> int" where
  "spec_complexity_score depth field_count obj_count enum_count =
     py_int (min 30 (of_int depth * 5) + min 25 (of_int field_count / 10)
             + min 25 (of_int obj_count * 2) + min 20 (of_int enum_count / 50))"

section \<open>Strategy selection and complexity score\<close>

text \<open>
  Claim C1. The strategy is a function of the metrics alone, decided in order: estimated
  tokens above the chunk budget give the chunked strategy; otherwise a depth above 1 or an
  object count above 1 gives the hierarchical strategy; otherwise single pass. The analysis
  of a schema carries that strategy, and its \<open>needs_chunking\<close> flag is true exactly when
  the chunked branch was taken.
\<close>

theorem strategy_selection:
  "determine_strategy budget m =
     (if estimated_tokens m > budget then ''multi_pass_chunked''
      else if max_depth m > 1 \<or> object_count m > 1 then ''multi_pass_hierarchical''
      else ''single_pass'')
   \<and> strategy (analyze_complexity est budget schema)
       = determine_strategy budget (metrics (analyze_complexity est budget schema))
   \<and> needs_chunking (analyze_complexity est budget schema)
       = (strategy (analyze_complexity est budget schema) = ''multi_pass_chunked'')
   \<and> needs_chunking (analyze_complexity est budget schema) = (est schema > budget)
   \<and> strategy (analyze_complexity est budget schema)
       = (if est schema > budget then ''multi_pass_chunked''
          else if int (calculate_schema_depth schema 0) > 1 \<or> int (count_schema_objects schema) > 1
          then ''multi_pass_hierarchical''
          else ''single_pass'')"
  by (simp add: determine_strategy_def analyze_complexity_def Let_def)

lemma calculate_complexity_score_spec:
  "calculate_complexity_score m =
     spec_complexity_score (max_depth m) (total_fields m) (object_count m) (enum_complexity m)"
  by (simp add: calculate_complexity_score_def spec_complexity_score_def Let_def of_int_min)

lemma spec_complexity_score_bounds:
  assumes "0 \<le> d" "0 \<le> f" "0 \<le> ob" "0 \<le> e"
  shows "0 \<le> spec_complexity_score d f ob e \<and> spec_complexity_score d f ob e \<le> 100"
proof -
  let ?x = "min 30 (rat_of_int d * 5) + min 25 (rat_of_int f / 10)
            + min 25 (rat_of_int ob * 2) + min 20 (rat_of_int e / 50)"
  have lo: "0 \<le> ?x"
    using assms by (intro add_nonneg_nonneg) simp_all
  have hi: "?x \<le> 30 + 25 + 25 + 20"
    by (intro add_mono) simp_all
  have "spec_complexity_score d f ob e = \<lfloor>?x\<rfloor>"
    using lo by (simp add: spec_complexity_score_def py_int_def)
  moreover have "0 \<le> \<lfloor>?x\<rfloor>"
    using lo by simp
  moreover have "\<lfloor>?x\<rfloor> \<le> 100"
    using hi by (simp add: floor_le_iff)
  ultimately show ?thesis by simp
qed

text \<open>
  Claim C9. The complexity score of a schema is the integer value of
  min(30, depth * 5) + min(25, field_count / 10) + min(25, object_count * 2)
  + min(20, enum_count / 50), and it lies within 0 and 100.
\<close>

theorem complexity_score_formula:
  "complexity_score (analyze_complexity est budget schema)
     = spec_complexity_score (int (calculate_schema_depth schema 0))
         (int (length (flatten_schema schema []))) (int (count_schema_objects schema))
         (int (count_enum_values schema))
   \<and> 0 \<le> complexity_score (analyze_complexity est budget schema)
   \<and> complexity_score (analyze_complexity est budget schema) \<le> 100"
proof -
  let ?d = "int (calculate_schema_depth schema 0)"
  let ?f = "int (length (flatten_schema schema []))"
  let ?ob = "int (count_schema_objects schema)"
  let ?e = "int (count_enum_values schema)"
  have eq: "complexity_score (analyze_complexity est budget schema)
              = spec_complexity_score ?d ?f ?ob ?e"
    by (simp add: analyze_complexity_def Let_def calculate_complexity_score_spec)
  have "0 \<le> spec_complexity_score ?d ?f ?ob ?e \<and> spec_complexity_score ?d ?f ?ob ?e \<le> 100"
    by (rule spec_complexity_score_bounds) simp_all
  with eq show ?thesis by simp
qed

section \<open>Python values: numbers, equality, errors\<close>

datatype py_error =
    TypeError | AttributeError | KeyError | IndexError | OverflowError | RecursionError
  | MemoryError

definition bind_err :: "py_error + 'a \<Rightarrow> ('a \<Rightarrow> py_error + 'b) \<Rightarrow> py_error + 'b" where
  "bind_err m f = (case m of Inl e \<Rightarrow> Inl e | Inr x \<Rightarrow> f x)"

text \<open>The value of a number; \<^verbatim>\<open>bool\<close> is a subclass of \<^verbatim>\<open>int\<close> in Python.\<close>

fun py_num :: "json \<Rightarrow> rat option" where
  "py_num (JBool b) = Some (if b then 1 else 0)"
| "py_num (JInt i) = Some (of_int i)"
| "py_num (JFloat r) = Some r"
| "py_num _ = None"

text \<open>\<^verbatim>\<open>isinstance(x, (int, float))\<close>, \<^verbatim>\<open>isinstance(x, str)\<close>, \<^verbatim>\<open>isinstance(x, bool)\<close>.\<close>

definition is_number :: "json \<Rightarrow> bool" where
  "is_number x = (py_num x \<noteq> None)"

fun is_str :: "json \<Rightarrow> bool" where
  "is_str (JStr s) = True"
| "is_str _ = False"

fun is_bool :: "json \<Rightarrow> bool" where
  "is_bool (JBool b) = True"
| "is_bool _ = False"

text \<open>\<^verbatim>\<open>a == b\<close>: numbers by value, lists item by item, dictionaries as mappings.\<close>

fun py_eq :: "json \<Rightarrow> json \<Rightarrow> bool" and py_eq_list :: "json list \<Rightarrow> json list \<Rightarrow> bool" where
  "py_eq JNull JNull = True"
| "py_eq (JStr a) (JStr b) = (a = b)"
| "py_eq (JArr xs) (JArr ys) = py_eq_list xs ys"
| "py_eq (JObj a) (JObj b) =
     (length a = length b \<and>
      list_all (\<lambda>(k, v). case map_of b k of Some w \<Rightarrow> py_eq v w | None \<Rightarrow> False) a)"
| "py_eq a b = (case (py_num a, py_num b) of (Some x, Some y) \<Rightarrow> x = y | _ \<Rightarrow> False)"
| "py_eq_list [] [] = True"
| "py_eq_list (x # xs) (y # ys) = (py_eq x y \<and> py_eq_list xs ys)"
| "py_eq_list _ _ = False"

text \<open>Whether \<^verbatim>\<open>hash(x)\<close> succeeds: lists and dictionaries are unhashable.\<close>

fun hashable :: "json \<Rightarrow> bool" where
  "hashable (JArr xs) = False"
| "hashable (JObj kvs) = False"
| "hashable _ = True"

text \<open>\<^verbatim>\<open>a + b\<close> on numbers; the sum is an \<^verbatim>\<open>int\<close> unless a float takes part.\<close>

fun py_add :: "json \<Rightarrow> json \<Rightarrow> py_error + json" where
  "py_add (JFloat a) b = (case py_num b of Some y \<Rightarrow> Inr (JFloat (a + y)) | None \<Rightarrow> Inl TypeError)"
| "py_add a (JFloat b) = (case py_num a of Some x \<Rightarrow> Inr (JFloat (x + b)) | None \<Rightarrow> Inl TypeError)"
| "py_add a b =
     (case (py_num a, py_num b) of
        (Some x, Some y) \<Rightarrow> Inr (JInt (\<lfloor>x\<rfloor> + \<lfloor>y\<rfloor>))
      | _ \<Rightarrow> Inl TypeError)"

text \<open>\<^verbatim>\<open>sum(xs)\<close> of numbers, as a rational.\<close>

fun py_sum :: "json list \<Rightarrow> py_error + rat" where
  "py_sum [] = Inr 0"
| "py_sum (x # xs) =
     (case py_num x of
        None \<Rightarrow> Inl TypeError
      | Some v \<Rightarrow> bind_err (py_sum xs) (\<lambda>r. Inr (v + r)))"

text \<open>\<^verbatim>\<open>s.split('.')\<close>.\<close>

fun split_on :: "char \<Rightarrow> string \<Rightarrow> string list" where
  "split_on c [] = [[]]"
| "split_on c (x # xs) =
     (if x = c then [] # split_on c xs
      else (case split_on c xs of
              w # ws \<Rightarrow> (x # w) # ws
            | [] \<Rightarrow> [[x]]))"

section \<open>Python strings\<close>

text \<open>
  Strings are lists of characters below 256, read as code points. \<^verbatim>\<open>str.isspace\<close> and the
  regular expression class \<^verbatim>\<open>\s\<close> hold of the same characters there. The upper-case
  letters below 256 are \<open>A\<close> to \<open>Z\<close> and the code points 192 to 222 without 215;
  \<^verbatim>\<open>str.lower\<close> moves each of them up by 32 and leaves every other character.
\<close>

definition is_space :: "char \<Rightarrow> bool" where
  "is_space c = (of_char c \<in> set [9, 10, 11, 12, 13, 28, 29, 30, 31, 32, 133, 160 :: nat])"

definition is_upper :: "char \<Rightarrow> bool" where
  "is_upper c = (65 \<le> (of_char c :: nat) \<and> (of_char c :: nat) \<le> 90)"

definition is_upper_letter :: "char \<Rightarrow> bool" where
  "is_upper_letter c =
     (is_upper c \<or>
      (192 \<le> (of_char c :: nat) \<and> (of_char c :: nat) \<le> 222 \<and> (of_char c :: nat) \<noteq> 215))"

definition lower_char :: "char \<Rightarrow> char" where
  "lower_char c = (if is_upper_letter c then char_of (of_char c + (32 :: nat)) else c)"

definition py_lower :: "string \<Rightarrow> string" where
  "py_lower s = map lower_char s"

text \<open>\<^verbatim>\<open>a in b\<close> for strings: \<open>a\<close> occurs in \<open>b\<close> as a contiguous part.\<close>

fun substring :: "string \<Rightarrow> string \<Rightarrow> bool" where
  "substring a [] = (a = [])"
| "substring a (c # cs) = (take (length a) (c # cs) = a \<or> substring a cs)"

text \<open>\<^verbatim>\<open>s.split()\<close>: the maximal runs of characters that are not whitespace.\<close>

fun words_from :: "string \<Rightarrow> string \<Rightarrow> string list" where
  "words_from [] cur = (if cur = [] then [] else [cur])"
| "words_from (c # cs) cur =
     (if is_space c then (if cur = [] then words_from cs [] else cur # words_from cs [])
      else words_from cs (cur @ [c]))"

definition py_words :: "string \<Rightarrow> string list" where
  "py_words s = words_from s []"



section \<open>Merging the results of document chunks (document_processor.py)\<close>

text \<open>\<^verbatim>\<open>dict(items)\<close>: a later item of a repeated key replaces the value of the first.\<close>

definition dict_of_items :: "(string \<times> 'v) list \<Rightarrow> (string \<times> 'v) list" where
  "dict_of_items items = dict_update [] items"

fun flatten_dict :: "json \<Rightarrow> string \<Rightarrow> (string \<times> json) list" where
  "flatten_dict d parent_key =
     dict_of_items
       (fold (\<lambda>(k, v) items.
                let new_key = (if parent_key \<noteq> [] then parent_key @ ''.'' @ k else k) in
                if is_dict v then items @ flatten_dict v new_key
                else items @ [(new_key, v)])
             (py_items d) [])"

text \<open>
  \<^verbatim>\<open>set_nested_value\<close> (utils.py), given the keys of the split path. The source walks
  and mutates \<open>data\<close>; here the updated dictionary is returned. Indexing or testing a
  value that is not a dictionary raises \<^verbatim>\<open>TypeError\<close>.
\<close>

fun set_nested_keys :: "json \<Rightarrow> string list \<Rightarrow> json \<Rightarrow> py_error + json" where
  "set_nested_keys d [] v = Inl IndexError"
| "set_nested_keys (JObj kvs) [k] v = Inr (JObj (AList.update k v kvs))"
| "set_nested_keys (JObj kvs) (k # ks) v =
     bind_err (set_nested_keys (case map_of kvs k of None \<Rightarrow> JObj [] | Some cur \<Rightarrow> cur) ks v)
       (\<lambda>sub. Inr (JObj (AList.update k sub kvs)))"
| "set_nested_keys _ ks v = Inl TypeError"

definition set_nested_value :: "json \<Rightarrow> string \<Rightarrow> json \<Rightarrow> py_error + json" where
  "set_nested_value data path v = set_nested_keys data (split_on CHR ''.'' path) v"

text \<open>The occurrence count of the numeric branch: a dictionary keyed by the values.\<close>

fun count_value :: "(json \<times> nat) list \<Rightarrow> json \<Rightarrow> (json \<times> nat) list" where
  "count_value [] val = [(val, 1)]"
| "count_value ((k, c) # rest) val =
     (if py_eq k val then (k, c + 1) # rest else (k, c) # count_value rest val)"

fun value_counts :: "json list \<Rightarrow> (json \<times> nat) list \<Rightarrow> py_error + (json \<times> nat) list" where
  "value_counts [] counts = Inr counts"
| "value_counts (val # vals) counts =
     (if hashable val then value_counts vals (count_value counts val) else Inl TypeError)"

text \<open>\<^verbatim>\<open>max(items, key=lambda x: x[1])\<close>: the first item of the largest count.\<close>

fun max_by_count :: "(json \<times> nat) \<Rightarrow> (json \<times> nat) list \<Rightarrow> (json \<times> nat)" where
  "max_by_count best [] = best"
| "max_by_count best (x # xs) = max_by_count (if snd x > snd best then x else best) xs"

text \<open>Removing duplicates from a list, first occurrences kept, through a set of seen items.\<close>

fun dedup :: "json list \<Rightarrow> json list \<Rightarrow> py_error + json list" where
  "dedup [] result = Inr result"
| "dedup (item # rest) result =
     (if \<not> hashable item then Inl TypeError
      else if list_ex (\<lambda>seen. py_eq seen item) result then dedup rest result
      else dedup rest (result @ [item]))"

definition resolve_field_conflict :: "json \<Rightarrow> json \<Rightarrow> json list \<Rightarrow> py_error + json" where
  "resolve_field_conflict existing_value new_value all_values =
     (if py_eq existing_value new_value then Inr existing_value
      else if is_str existing_value \<and> is_str new_value then
        Inr (if py_len existing_value \<ge> py_len new_value then existing_value else new_value)
      else if is_number existing_value \<and> is_number new_value then
        bind_err (value_counts all_values [])
          (\<lambda>counts. case counts of
                       [] \<Rightarrow> Inl TypeError
                     | c # cs \<Rightarrow> Inr (fst (max_by_count c cs)))
      else if is_list existing_value \<and> is_list new_value then
        (case (existing_value, new_value) of
           (JArr xs, JArr ys) \<Rightarrow> bind_err (dedup (xs @ ys) []) (\<lambda>r. Inr (JArr r))
         | _ \<Rightarrow> Inl TypeError)
      else if is_bool existing_value \<and> is_bool new_value then
        (case (existing_value, new_value) of
           (JBool a, JBool b) \<Rightarrow> Inr (JBool (a \<or> b))
         | _ \<Rightarrow> Inl TypeError)
      else if new_value \<noteq> JNull then Inr new_value
      else Inr existing_value)"

text \<open>
  \<^verbatim>\<open>_merge_with_conflict_resolution\<close>. The loop over the flattened chunk data updates the
  flat merged dictionary and the two tracking dictionaries \<open>field_values\<close> and
  \<open>field_occurrences\<close>, which the caller shares across chunks.
\<close>

record merge_tracking =
  merged_flat :: "(string \<times> json) list"
  field_values :: "(string \<times> json list) list"
  field_occurrences :: "(string \<times> int) list"

definition merge_field :: "string \<times> json \<Rightarrow> merge_tracking \<Rightarrow> py_error + merge_tracking" where
  "merge_field item st =
     (let field_path = fst item; val = snd item in
      if val = JNull then Inr st
      else
        let occ = (case map_of (field_occurrences st) field_path of None \<Rightarrow> 0 | Some n \<Rightarrow> n);
            vals = (case map_of (field_values st) field_path of None \<Rightarrow> [] | Some vs \<Rightarrow> vs);
            st = st \<lparr> field_occurrences := AList.update field_path (occ + 1) (field_occurrences st),
                      field_values := AList.update field_path (vals @ [val]) (field_values st) \<rparr>
        in case map_of (merged_flat st) field_path of
             None \<Rightarrow> Inr (st \<lparr> merged_flat := AList.update field_path val (merged_flat st) \<rparr>)
           | Some existing_value \<Rightarrow>
               bind_err (resolve_field_conflict existing_value val (vals @ [val]))
                 (\<lambda>resolved_value.
                    Inr (st \<lparr> merged_flat := AList.update field_path resolved_value (merged_flat st) \<rparr>)))"

fun merge_fields :: "(string \<times> json) list \<Rightarrow> merge_tracking \<Rightarrow> py_error + merge_tracking" where
  "merge_fields [] st = Inr st"
| "merge_fields (item # rest) st = bind_err (merge_field item st) (merge_fields rest)"

fun rebuild_nested :: "(string \<times> json) list \<Rightarrow> json \<Rightarrow> py_error + json" where
  "rebuild_nested [] result = Inr result"
| "rebuild_nested ((field_path, v) # rest) result =
     bind_err (set_nested_value result field_path v) (rebuild_nested rest)"

text \<open>The result is the rebuilt dictionary with the updated tracking dictionaries.\<close>

definition merge_with_conflict_resolution ::
  "json \<Rightarrow> json \<Rightarrow> (string \<times> json list) list \<Rightarrow> (string \<times> int) list
   \<Rightarrow> py_error + (json \<times> (string \<times> json list) list \<times> (string \<times> int) list)" where
  "merge_with_conflict_resolution merged_data chunk_data fvalues foccurrences =
     (if \<not> is_dict merged_data \<or> \<not> is_dict chunk_data then Inl AttributeError
      else
        bind_err (merge_fields (flatten_dict chunk_data [])
                    \<lparr> merged_flat = flatten_dict merged_data [],
                      field_values = fvalues, field_occurrences = foccurrences \<rparr>)
          (\<lambda>st. bind_err (rebuild_nested (merged_flat st) (JObj []))
                   (\<lambda>result. Inr (result, field_values st, field_occurrences st))))"

text \<open>
  \<^verbatim>\<open>merge_extractions\<close>. An extraction result is a dictionary with the keys \<^verbatim>\<open>data\<close>,
  \<^verbatim>\<open>confidence\<close>, \<^verbatim>\<open>strategy\<close>, \<^verbatim>\<open>token_usage\<close> and others. The loop state is the merged
  data, the collected confidences of each field, the token total and the tracking
  dictionaries.
\<close>

record merge_acc =
  merged_data :: json
  all_field_confidences :: "(string \<times> json list) list"
  total_tokens :: json
  acc_field_values :: "(string \<times> json list) list"
  acc_field_occurrences :: "(string \<times> int) list"

text \<open>\<^verbatim>\<open>d.get(k, default)\<close> on a dictionary; on another value the source raises.\<close>

definition dict_get_default :: "json \<Rightarrow> string \<Rightarrow> json \<Rightarrow> py_error + json" where
  "dict_get_default d k dflt =
     (if is_dict d then Inr (case py_get k d of Some v \<Rightarrow> v | None \<Rightarrow> dflt)
      else Inl AttributeError)"

fun collect_confidences ::
  "(string \<times> json) list \<Rightarrow> (string \<times> json list) list \<Rightarrow> (string \<times> json list) list" where
  "collect_confidences [] acc = acc"
| "collect_confidences ((field, confidence) # rest) acc =
     collect_confidences rest
       (AList.update field
          ((case map_of acc field of None \<Rightarrow> [] | Some cs \<Rightarrow> cs) @ [confidence]) acc)"

definition merge_chunk :: "json \<Rightarrow> merge_acc \<Rightarrow> py_error + merge_acc" where
  "merge_chunk chunk_result acc =
     bind_err (dict_get_default chunk_result ''data'' (JObj [])) (\<lambda>chunk_data.
     bind_err (dict_get_default chunk_result ''confidence'' (JObj [])) (\<lambda>chunk_confidence.
     bind_err (merge_with_conflict_resolution (merged_data acc) chunk_data
                 (acc_field_values acc) (acc_field_occurrences acc)) (\<lambda>(merged, fv, fo).
     bind_err (dict_get_default chunk_confidence ''fields'' (JObj [])) (\<lambda>fields.
     if \<not> is_dict fields then Inl AttributeError
     else
       bind_err (dict_get_default chunk_result ''token_usage'' (JInt 0)) (\<lambda>usage.
       bind_err (py_add (total_tokens acc) usage) (\<lambda>tokens.
         Inr \<lparr> merged_data = merged,
               all_field_confidences =
                 collect_confidences (py_items fields) (all_field_confidences acc),
               total_tokens = tokens,
               acc_field_values = fv,
               acc_field_occurrences = fo \<rparr>))))))"

fun merge_chunks :: "json list \<Rightarrow> merge_acc \<Rightarrow> py_error + merge_acc" where
  "merge_chunks [] acc = Inr acc"
| "merge_chunks (chunk_result # rest) acc = bind_err (merge_chunk chunk_result acc) (merge_chunks rest)"

text \<open>The weighted score of each field: its mean score times the share of chunks naming it.\<close>

fun final_confidences :: "nat \<Rightarrow> (string \<times> json list) list \<Rightarrow> py_error + (string \<times> json) list" where
  "final_confidences n [] = Inr []"
| "final_confidences n ((field, confidences) # rest) =
     bind_err (py_sum confidences) (\<lambda>total.
     bind_err (final_confidences n rest) (\<lambda>others.
       let avg_confidence = total / of_nat (length confidences);
           frequency_weight = of_nat (length confidences) / of_nat n
       in Inr ((field, JFloat (avg_confidence * frequency_weight)) # others)))"

definition merge_extractions :: "json list \<Rightarrow> py_error + json" where
  "merge_extractions chunk_results =
     (case chunk_results of
        [] \<Rightarrow>
          Inr (JObj [(''data'', JObj []),
                     (''confidence'', JObj [(''overall'', JFloat 0), (''fields'', JObj [])]),
                     (''strategy'', JStr ''document_chunked''),
                     (''total_chunks'', JInt 0)])
      | [only] \<Rightarrow>
          (case only of
             JObj kvs \<Rightarrow>
               Inr (JObj (AList.update ''total_chunks'' (JInt 1)
                            (AList.update ''strategy'' (JStr ''document_chunked'') kvs)))
           | JArr xs \<Rightarrow> Inl TypeError
           | _ \<Rightarrow> Inl AttributeError)
      | _ \<Rightarrow>
          bind_err (merge_chunks chunk_results
                      \<lparr> merged_data = JObj [], all_field_confidences = [],
                        total_tokens = JInt 0, acc_field_values = [],
                        acc_field_occurrences = [] \<rparr>) (\<lambda>acc.
          bind_err (final_confidences (length chunk_results) (all_field_confidences acc)) (\<lambda>finals.
          bind_err (py_sum (map snd finals)) (\<lambda>total.
            let overall_confidence =
                  (if finals \<noteq> [] then total / of_nat (length finals) else 0)
            in Inr (JObj [(''data'', merged_data acc),
                          (''confidence'', JObj [(''overall'', JFloat overall_confidence),
                                                 (''fields'', JObj finals)]),
                          (''strategy'', JStr ''document_chunked''),
                          (''total_chunks'', JInt (int (length chunk_results))),
                          (''token_usage'', total_tokens acc),
                          (''chunk_results'', JArr chunk_results)])))))"

section \<open>Properties of the merge\<close>

text \<open>
  Claim C10. Merging an empty result list returns, without raising, the empty result: data
  is the empty object, the overall confidence is 0.0, the per-field map is empty, the
  strategy is \<open>document_chunked\<close> and \<open>total_chunks\<close> is 0.
\<close>

theorem merge_extractions_empty:
  "\<exists>r. merge_extractions [] = Inr r
     \<and> py_get ''data'' r = Some (JObj [])
     \<and> py_get ''confidence'' r = Some (JObj [(''overall'', JFloat 0), (''fields'', JObj [])])
     \<and> py_get ''strategy'' r = Some (JStr ''document_chunked'')
     \<and> py_get ''total_chunks'' r = Some (JInt 0)
     \<and> map fst (py_items r) = [''data'', ''confidence'', ''strategy'', ''total_chunks'']"
  by (simp add: merge_extractions_def)

text \<open>
  Claim C7. Merging a single result \<open>A\<close> returns \<open>A\<close> with \<open>strategy\<close> set to
  \<open>document_chunked\<close> and \<open>total_chunks\<close> set to 1; every other key of \<open>A\<close>, among
  them \<open>data\<close>, \<open>confidence\<close> and \<open>token_usage\<close>, keeps its value, and no key is added
  besides these two.
\<close>

theorem merge_extractions_single:
  "\<exists>r. merge_extractions [JObj a] = Inr r
     \<and> py_get ''strategy'' r = Some (JStr ''document_chunked'')
     \<and> py_get ''total_chunks'' r = Some (JInt 1)
     \<and> (\<forall>k. k \<noteq> ''strategy'' \<and> k \<noteq> ''total_chunks'' \<longrightarrow> py_get k r = py_get k (JObj a))
     \<and> py_get ''data'' r = py_get ''data'' (JObj a)
     \<and> py_get ''confidence'' r = py_get ''confidence'' (JObj a)
     \<and> py_get ''token_usage'' r = py_get ''token_usage'' (JObj a)"
  by (simp add: merge_extractions_def update_conv')

theorem merge_extractions_single_witness:
  "\<exists>r. merge_extractions
          [JObj [(''data'', JObj [(''name'', JStr ''Ann'')]),
                 (''confidence'', JObj [(''overall'', JFloat 1), (''fields'', JObj [(''name'', JFloat 1)])]),
                 (''strategy'', JStr ''single_pass''),
                 (''token_usage'', JInt 12)]] = Inr r
     \<and> py_get ''strategy'' r = Some (JStr ''document_chunked'')
     \<and> py_get ''total_chunks'' r = Some (JInt 1)
     \<and> py_get ''data'' r = Some (JObj [(''name'', JStr ''Ann'')])
     \<and> py_get ''token_usage'' r = Some (JInt 12)"
  using merge_extractions_single
    [of "[(''data'', JObj [(''name'', JStr ''Ann'')]),
          (''confidence'', JObj [(''overall'', JFloat 1), (''fields'', JObj [(''name'', JFloat 1)])]),
          (''strategy'', JStr ''single_pass''),
          (''token_usage'', JInt 12)]"]
  by auto

text \<open>
  Claim C2. Two values that are both booleans and differ reach the numeric branch of
  \<open>resolve_field_conflict\<close>, since a Python \<open>bool\<close> is an \<open>int\<close>: the value kept is the
  most frequent one seen so far, the first seen on a tie, and the branch written for
  booleans is never reached. Merging \<open>{"flag": false}\<close> and then \<open>{"flag": true}\<close>
  gives \<open>flag = false\<close>, where the logical OR is \<open>true\<close>.
\<close>

theorem merge_booleans_false_then_true:
  "resolve_field_conflict (JBool False) (JBool True) [JBool False, JBool True] = Inr (JBool False)
   \<and> merge_extractions
         [JObj [(''data'', JObj [(''flag'', JBool False)])],
          JObj [(''data'', JObj [(''flag'', JBool True)])]]
       = Inr (JObj [(''data'', JObj [(''flag'', JBool False)]),
                    (''confidence'', JObj [(''overall'', JFloat 0), (''fields'', JObj [])]),
                    (''strategy'', JStr ''document_chunked''),
                    (''total_chunks'', JInt 2),
                    (''token_usage'', JInt 0),
                    (''chunk_results'',
                       JArr [JObj [(''data'', JObj [(''flag'', JBool False)])],
                             JObj [(''data'', JObj [(''flag'', JBool True)])]])])"
  by code_simp

section \<open>Per-field confidence (confidence_scorer.py)\<close>

text \<open>The truth value of a Python value in a condition.\<close>

fun py_truthy :: "json \<Rightarrow> bool" where
  "py_truthy JNull = False"
| "py_truthy (JBool b) = b"
| "py_truthy (JInt i) = (i \<noteq> 0)"
| "py_truthy (JFloat r) = (r \<noteq> 0)"
| "py_truthy (JStr s) = (s \<noteq> [])"
| "py_truthy (JArr xs) = (xs \<noteq> [])"
| "py_truthy (JObj kvs) = (kvs \<noteq> [])"

text \<open>\<^verbatim>\<open>isinstance(x, int)\<close>: integers and booleans.\<close>

fun is_int :: "json \<Rightarrow> bool" where
  "is_int (JInt i) = True"
| "is_int (JBool b) = True"
| "is_int _ = False"

text \<open>
  \<^verbatim>\<open>_score_data_type\<close>. The expected type is looked up in a dictionary keyed by the type
  names, so a list or a dictionary as \<^verbatim>\<open>type\<close> raises \<^verbatim>\<open>TypeError\<close> (unhashable).
\<close>

definition type_matches :: "json \<Rightarrow> json \<Rightarrow> bool" where
  "type_matches expected_type v =
     (if expected_type = JStr ''string'' then is_str v
      else if expected_type = JStr ''number'' then is_number v
      else if expected_type = JStr ''integer'' then is_int v
      else if expected_type = JStr ''boolean'' then is_bool v
      else if expected_type = JStr ''array'' then is_list v
      else if expected_type = JStr ''object'' then is_dict v
      else if expected_type = JStr ''null'' then v = JNull
      else False)"

definition score_data_type :: "json \<Rightarrow> json \<Rightarrow> py_error + rat" where
  "score_data_type v schema =
     (let expected_type = (case py_get ''type'' schema of Some t \<Rightarrow> t | None \<Rightarrow> JNull) in
      if \<not> py_truthy expected_type then Inr 1.0
      else if \<not> hashable expected_type then Inl TypeError
      else if type_matches expected_type v then Inr 1.0
      else if expected_type = JStr ''number'' \<and> is_int v then Inr 1.0
      else if expected_type = JStr ''string'' \<and> is_number v then Inr 0.8
      else Inr 0.3)"

text \<open>
  \<^verbatim>\<open>value in enum_values\<close> and the loop over \<^verbatim>\<open>enum_values\<close>. A schema's \<^verbatim>\<open>enum\<close> is a list;
  Python also accepts a string (substring test, characters) and a dictionary (keys), and
  raises \<^verbatim>\<open>TypeError\<close> on anything else.
\<close>

definition py_in :: "json \<Rightarrow> json \<Rightarrow> py_error + bool" where
  "py_in v container =
     (case container of
        JArr xs \<Rightarrow> Inr (list_ex (\<lambda>x. py_eq x v) xs)
      | JStr s \<Rightarrow> (case v of JStr a \<Rightarrow> Inr (substring a s) | _ \<Rightarrow> Inl TypeError)
      | JObj kvs \<Rightarrow>
          (if \<not> hashable v then Inl TypeError
           else Inr (case v of JStr a \<Rightarrow> a \<in> set (map fst kvs) | _ \<Rightarrow> False))
      | _ \<Rightarrow> Inl TypeError)"

definition py_iter :: "json \<Rightarrow> json list" where
  "py_iter container =
     (case container of
        JArr xs \<Rightarrow> xs
      | JStr s \<Rightarrow> map (\<lambda>c. JStr [c]) s
      | JObj kvs \<Rightarrow> map (\<lambda>(k, v). JStr k) kvs
      | _ \<Rightarrow> [])"

definition score_enum_match :: "json \<Rightarrow> json \<Rightarrow> py_error + rat" where
  "score_enum_match v schema =
     (case py_get ''enum'' schema of
        None \<Rightarrow> Inr 1.0
      | Some enum_values \<Rightarrow>
          bind_err (py_in v enum_values) (\<lambda>found.
            if found then Inr 1.0
            else case v of
              JStr s \<Rightarrow>
                if list_ex (\<lambda>enum_val. case enum_val of
                                         JStr e \<Rightarrow> py_lower s = py_lower e
                                       | _ \<Rightarrow> False) (py_iter enum_values)
                then Inr 0.9 else Inr 0.2
            | _ \<Rightarrow> Inr 0.2))"

text \<open>
  The outcomes of \<^verbatim>\<open>re.match(pattern, value)\<close> on two strings: a match, no match, the
  exception \<^verbatim>\<open>re.error\<close> for an invalid pattern, or another exception, which the
  engine raises on some patterns that are strings (\<^verbatim>\<open>OverflowError\<close> for a repeat count
  that is too large, \<^verbatim>\<open>RecursionError\<close> for nesting that is too deep).
\<close>

datatype re_result = ReMatch | ReNoMatch | ReError | ReRaise py_error

text \<open>
  \<^verbatim>\<open>_score_pattern_match\<close>. The regular expression engine is the parameter \<open>re_match\<close>.
  The source catches \<^verbatim>\<open>re.error\<close> only, so any other exception of the engine leaves the
  function. A pattern that is not a string raises \<^verbatim>\<open>TypeError\<close>.
\<close>

definition score_pattern_match ::
  "(string \<Rightarrow> string \<Rightarrow> re_result) \<Rightarrow> json \<Rightarrow> json \<Rightarrow> py_error + rat" where
  "score_pattern_match re_match v schema =
     (case (py_get ''pattern'' schema, v) of
        (Some pattern, JStr s) \<Rightarrow>
          (case pattern of
             JStr p \<Rightarrow>
               (case re_match p s of
                  ReMatch \<Rightarrow> Inr 1.0
                | ReNoMatch \<Rightarrow> Inr 0.4
                | ReError \<Rightarrow> Inr 1.0
                | ReRaise e \<Rightarrow> Inl e)
           | _ \<Rightarrow> Inl TypeError)
      | _ \<Rightarrow> Inr 1.0)"

text \<open>
  One bound of \<^verbatim>\<open>_score_range_validation\<close> or \<^verbatim>\<open>_score_length_validation\<close>: when the key
  is in the schema and the comparison \<open>violates x bound\<close> holds, the score is multiplied
  by the penalty. Comparing a number with a value that is not a number raises.
\<close>

definition apply_bound ::
  "(rat \<Rightarrow> rat \<Rightarrow> bool) \<Rightarrow> rat \<Rightarrow> string \<Rightarrow> rat \<Rightarrow> json \<Rightarrow> rat \<Rightarrow> py_error + rat" where
  "apply_bound violates penalty key x schema score =
     (case py_get key schema of
        None \<Rightarrow> Inr score
      | Some bound \<Rightarrow>
          (case py_num bound of
             None \<Rightarrow> Inl TypeError
           | Some b \<Rightarrow> Inr (if violates x b then score * penalty else score)))"

definition score_range_validation :: "json \<Rightarrow> json \<Rightarrow> py_error + rat" where
  "score_range_validation v schema =
     (case py_num v of
        None \<Rightarrow> Inr 1.0
      | Some x \<Rightarrow>
          bind_err (apply_bound (\<lambda>x b. x < b) 0.3 ''minimum'' x schema 1.0) (\<lambda>score.
          bind_err (apply_bound (\<lambda>x b. x > b) 0.3 ''maximum'' x schema score) (\<lambda>score.
          bind_err (apply_bound (\<lambda>x b. x \<le> b) 0.3 ''exclusiveMinimum'' x schema score) (\<lambda>score.
          apply_bound (\<lambda>x b. x \<ge> b) 0.3 ''exclusiveMaximum'' x schema score))))"

definition score_length_validation :: "json \<Rightarrow> json \<Rightarrow> py_error + rat" where
  "score_length_validation v schema =
     (if \<not> (is_str v \<or> is_list v) then Inr 1.0
      else
        let len = of_nat (py_len v) in
        bind_err (apply_bound (\<lambda>x b. x < b) 0.5 ''minLength'' len schema 1.0) (\<lambda>score.
        apply_bound (\<lambda>x b. x > b) 0.5 ''maxLength'' len schema score))"

text \<open>\<^verbatim>\<open>_score_context_relevance\<close>; a text that is not a string has no \<^verbatim>\<open>lower\<close>.\<close>

definition score_context_relevance :: "json \<Rightarrow> json \<Rightarrow> py_error + rat" where
  "score_context_relevance v original_text =
     (case v of
        JStr s \<Rightarrow>
          if \<not> py_truthy original_text then Inr 1.0
          else (case original_text of
                  JStr t \<Rightarrow>
                    let value_lower = py_lower s; text_lower = py_lower t in
                    if substring value_lower text_lower then Inr 1.0
                    else
                      let words = py_words value_lower in
                      if length words > 1 then
                        let matches = length (filter (\<lambda>word. substring word text_lower) words)
                        in Inr (0.5 + (of_nat matches / of_nat (length words)) * 0.5)
                      else Inr 0.7
                | _ \<Rightarrow> Inl AttributeError)
      | _ \<Rightarrow> Inr 1.0)"

text \<open>
  \<^verbatim>\<open>score_field\<close>. The context is \<open>JNull\<close> for the default \<^verbatim>\<open>None\<close>, else the dictionary
  passed by the caller.
\<close>

definition score_field ::
  "(string \<Rightarrow> string \<Rightarrow> re_result) \<Rightarrow> json \<Rightarrow> json \<Rightarrow> json \<Rightarrow> py_error + rat" where
  "score_field re_match field_value field_schema extraction_context =
     (let extraction_context = (if extraction_context = JNull then JObj [] else extraction_context);
          confidence = (1.0 :: rat) in
      if \<not> is_dict field_schema then Inl AttributeError
      else if field_value = JNull then
        (if py_truthy (case py_get ''required'' field_schema of Some r \<Rightarrow> r | None \<Rightarrow> JBool False)
         then Inr 0.0 else Inr 0.5)
      else
        bind_err (score_data_type field_value field_schema) (\<lambda>f.
        let confidence = confidence * f in
        bind_err (score_enum_match field_value field_schema) (\<lambda>f.
        let confidence = confidence * f in
        bind_err (score_pattern_match re_match field_value field_schema) (\<lambda>f.
        let confidence = confidence * f in
        bind_err (score_range_validation field_value field_schema) (\<lambda>f.
        let confidence = confidence * f in
        bind_err (score_length_validation field_value field_schema) (\<lambda>f.
        let confidence = confidence * f in
        bind_err (py_in (JStr ''original_text'') extraction_context) (\<lambda>has_text.
        bind_err
          (if has_text then
             (case py_get ''original_text'' extraction_context of
                Some original_text \<Rightarrow>
                  bind_err (score_context_relevance field_value original_text)
                    (\<lambda>f. Inr (confidence * f))
              | None \<Rightarrow> Inl TypeError)
           else Inr confidence) (\<lambda>confidence.
        Inr (max 0.0 (min 1.0 confidence))))))))))"

text \<open>
  The field schemas on which no comparison or lookup of \<open>score_field\<close> raises: the
  \<^verbatim>\<open>type\<close> is hashable, the \<^verbatim>\<open>enum\<close> is a list, the \<^verbatim>\<open>pattern\<close> a string and the six
  bounds are numbers. The contexts the scorer passes: none, or a dictionary whose
  \<^verbatim>\<open>original_text\<close> is a string.
\<close>

definition field_schema_ok :: "json \<Rightarrow> bool" where
  "field_schema_ok schema =
     (is_dict schema
      \<and> (case py_get ''type'' schema of None \<Rightarrow> True | Some t \<Rightarrow> hashable t)
      \<and> (case py_get ''enum'' schema of None \<Rightarrow> True | Some e \<Rightarrow> is_list e)
      \<and> (case py_get ''pattern'' schema of None \<Rightarrow> True | Some p \<Rightarrow> is_str p)
      \<and> list_all (\<lambda>key. case py_get key schema of None \<Rightarrow> True | Some b \<Rightarrow> is_number b)
            [''minimum'', ''maximum'', ''exclusiveMinimum'', ''exclusiveMaximum'',
             ''minLength'', ''maxLength''])"

text \<open>The call of the engine that \<open>score_field\<close> makes, if it makes one, raises nothing
  but \<^verbatim>\<open>re.error\<close>.\<close>

definition pattern_call_ok :: "(string \<Rightarrow> string \<Rightarrow> re_result) \<Rightarrow> json \<Rightarrow> json \<Rightarrow> bool" where
  "pattern_call_ok re_match v schema =
     (case (py_get ''pattern'' schema, v) of
        (Some (JStr p), JStr s) \<Rightarrow> (case re_match p s of ReRaise e \<Rightarrow> False | _ \<Rightarrow> True)
      | _ \<Rightarrow> True)"

definition context_ok :: "json \<Rightarrow> bool" where
  "context_ok ctx =
     (ctx = JNull \<or>
      (is_dict ctx \<and> (case py_get ''original_text'' ctx of None \<Rightarrow> True | Some t \<Rightarrow> is_str t)))"

text \<open>A call returns (does not raise).\<close>

definition returns :: "py_error + 'a \<Rightarrow> bool" where
  "returns m = (case m of Inr x \<Rightarrow> True | Inl e \<Rightarrow> False)"

lemma returns_Inr [simp]: "returns (Inr x)"
  by (simp add: returns_def)

lemma returns_Inl [simp]: "\<not> returns (Inl e)"
  by (simp add: returns_def)

lemma returns_iff: "returns m \<longleftrightarrow> (\<exists>x. m = Inr x)"
  by (cases m) simp_all

lemma returnsE:
  assumes "returns m"
  obtains x where "m = Inr x"
  using assms by (cases m) simp_all

lemma bind_err_Inr:
  "bind_err m f = Inr y \<longleftrightarrow> (\<exists>x. m = Inr x \<and> f x = Inr y)"
  by (cases m) (simp_all add: bind_err_def)

lemma bind_err_Inr_simp [simp]: "bind_err (Inr x) f = f x"
  by (simp add: bind_err_def)

lemma bind_err_Inl_simp [simp]: "bind_err (Inl e) f = Inl e"
  by (simp add: bind_err_def)

lemma bind_err_InrE:
  assumes "bind_err m f = Inr y"
  obtains x where "m = Inr x" and "f x = Inr y"
  using assms by (auto simp: bind_err_Inr)

lemma score_field_clamped:
  assumes "score_field re_match v schema ctx = Inr s"
  shows "0 \<le> s \<and> s \<le> 1"
proof (cases "v = JNull")
  case True
  with assms show ?thesis
    by (simp add: score_field_def Let_def split: if_splits)
next
  case False
  have d: "is_dict schema"
    using assms by (simp add: score_field_def Let_def split: if_splits)
  from assms False d have "\<exists>c. Inr (max 0.0 (min 1.0 c)) = Inr s"
    unfolding score_field_def Let_def
    by (simp only: if_False if_True not_True_eq_False not_False_eq_True) (elim bind_err_InrE, blast)
  then obtain c where "s = max 0 (min 1 c)"
    by auto
  then show ?thesis by simp
qed

lemma score_field_absent:
  assumes "is_dict schema"
  shows "score_field re_match JNull schema ctx =
           Inr (if py_truthy (case py_get ''required'' schema of Some r \<Rightarrow> r | None \<Rightarrow> JBool False)
                then 0 else 1 / 2)"
  using assms by (simp add: score_field_def Let_def)

lemma score_data_type_total:
  "(case py_get ''type'' schema of None \<Rightarrow> True | Some t \<Rightarrow> hashable t)
   \<Longrightarrow> returns (score_data_type v schema)"
  by (auto simp: score_data_type_def Let_def split: option.splits)

lemma py_in_list_total: "is_list e \<Longrightarrow> returns (py_in v e)"
  by (cases e) (simp_all add: py_in_def)

lemma score_enum_match_found:
  "py_get ''enum'' schema = Some e \<Longrightarrow> py_in v e = Inr b \<Longrightarrow> returns (score_enum_match v schema)"
  apply (simp add: score_enum_match_def)
  apply (cases v)
        apply simp_all
  done

lemma score_enum_match_total:
  "(case py_get ''enum'' schema of None \<Rightarrow> True | Some e \<Rightarrow> is_list e)
   \<Longrightarrow> returns (score_enum_match v schema)"
proof (cases "py_get ''enum'' schema")
  case None
  then show ?thesis by (simp add: score_enum_match_def)
next
  case (Some e)
  assume "case py_get ''enum'' schema of None \<Rightarrow> True | Some e \<Rightarrow> is_list e"
  with Some have "is_list e" by simp
  then have "returns (py_in v e)"
    by (rule py_in_list_total)
  then obtain b where "py_in v e = Inr b"
    by (rule returnsE)
  with Some show ?thesis
    by (rule score_enum_match_found)
qed

lemma score_pattern_match_str:
  "py_get ''pattern'' schema = Some (JStr q) \<Longrightarrow> pattern_call_ok re_match v schema
   \<Longrightarrow> returns (score_pattern_match re_match v schema)"
  apply (simp add: score_pattern_match_def pattern_call_ok_def)
  apply (cases v)
        apply (simp_all split: re_result.split re_result.split_asm)
  done

lemma score_pattern_match_total:
  "(case py_get ''pattern'' schema of None \<Rightarrow> True | Some p \<Rightarrow> is_str p)
   \<Longrightarrow> pattern_call_ok re_match v schema
   \<Longrightarrow> returns (score_pattern_match re_match v schema)"
proof (cases "py_get ''pattern'' schema")
  case None
  then show ?thesis by (simp add: score_pattern_match_def)
next
  case (Some p)
  assume "case py_get ''pattern'' schema of None \<Rightarrow> True | Some p \<Rightarrow> is_str p"
    and call: "pattern_call_ok re_match v schema"
  with Some obtain q where "p = JStr q"
    by (cases p) simp_all
  with Some call show ?thesis
    by (simp add: score_pattern_match_str)
qed

lemma apply_bound_total:
  "(case py_get key schema of None \<Rightarrow> True | Some b \<Rightarrow> is_number b)
   \<Longrightarrow> returns (apply_bound violates penalty key x schema score)"
  by (auto simp: apply_bound_def is_number_def split: option.splits)

lemma score_range_validation_total:
  assumes "list_all (\<lambda>key. case py_get key schema of None \<Rightarrow> True | Some b \<Rightarrow> is_number b)
             [''minimum'', ''maximum'', ''exclusiveMinimum'', ''exclusiveMaximum'']"
  shows "returns (score_range_validation v schema)"
proof (cases "py_num v")
  case None
  then show ?thesis by (simp add: score_range_validation_def)
next
  case (Some x)
  have b: "returns (apply_bound viol pen key x schema sc)"
    if "key \<in> set [''minimum'', ''maximum'', ''exclusiveMinimum'', ''exclusiveMaximum'']"
    for viol pen key sc
    using assms that by (intro apply_bound_total) auto
  obtain s1 where s1: "apply_bound (\<lambda>x b. x < b) 0.3 ''minimum'' x schema 1.0 = Inr s1"
    using b [of "''minimum''" "\<lambda>x b. x < b" "0.3" "1.0"] by (auto simp: returns_iff)
  obtain s2 where s2: "apply_bound (\<lambda>x b. x > b) 0.3 ''maximum'' x schema s1 = Inr s2"
    using b [of "''maximum''" "\<lambda>x b. x > b" "0.3" s1] by (auto simp: returns_iff)
  obtain s3 where s3: "apply_bound (\<lambda>x b. x \<le> b) 0.3 ''exclusiveMinimum'' x schema s2 = Inr s3"
    using b [of "''exclusiveMinimum''" "\<lambda>x b. x \<le> b" "0.3" s2] by (auto simp: returns_iff)
  have "returns (apply_bound (\<lambda>x b. x \<ge> b) 0.3 ''exclusiveMaximum'' x schema s3)"
    by (rule b) simp
  with Some s1 s2 s3 show ?thesis
    by (simp add: score_range_validation_def)
qed

lemma score_length_validation_total:
  assumes "list_all (\<lambda>key. case py_get key schema of None \<Rightarrow> True | Some b \<Rightarrow> is_number b)
             [''minLength'', ''maxLength'']"
  shows "returns (score_length_validation v schema)"
proof (cases "is_str v \<or> is_list v")
  case False
  then show ?thesis by (simp add: score_length_validation_def)
next
  case True
  let ?len = "of_nat (py_len v) :: rat"
  have b: "returns (apply_bound viol pen key ?len schema sc)"
    if "key \<in> set [''minLength'', ''maxLength'']" for viol pen key sc
    using assms that by (intro apply_bound_total) auto
  obtain s1 where s1: "apply_bound (\<lambda>x b. x < b) 0.5 ''minLength'' ?len schema 1.0 = Inr s1"
    using b [of "''minLength''" "\<lambda>x b. x < b" "0.5" "1.0"] by (auto simp: returns_iff)
  have "returns (apply_bound (\<lambda>x b. x > b) 0.5 ''maxLength'' ?len schema s1)"
    by (rule b) simp
  with True s1 show ?thesis
    by (simp add: score_length_validation_def Let_def)
qed

lemma score_context_relevance_total:
  "is_str t \<Longrightarrow> returns (score_context_relevance v t)"
  by (cases t; cases v) (simp_all add: score_context_relevance_def Let_def)

lemma context_factor_total:
  assumes "context_ok ctx"
  shows "\<exists>b. py_in (JStr ''original_text'') (if ctx = JNull then JObj [] else ctx) = Inr b
           \<and> (b \<longrightarrow> (\<exists>t. py_get ''original_text'' (if ctx = JNull then JObj [] else ctx) = Some t
                         \<and> is_str t))"
proof (cases "ctx = JNull")
  case True
  then show ?thesis by (auto simp: py_in_def)
next
  case False
  with assms obtain kvs where kvs: "ctx = JObj kvs"
    by (cases ctx) (simp_all add: context_ok_def)
  show ?thesis
  proof (cases "map_of kvs ''original_text''")
    case None
    then have "''original_text'' \<notin> set (map fst kvs)"
      by (simp add: map_of_eq_None_iff)
    with kvs show ?thesis by (auto simp: py_in_def)
  next
    case (Some t)
    with assms kvs have "is_str t"
      by (simp add: context_ok_def)
    with kvs Some show ?thesis by (auto simp: py_in_def)
  qed
qed

lemma score_field_total:
  assumes ok: "field_schema_ok schema" and ctx: "context_ok ctx"
    and call: "pattern_call_ok re_match v schema"
  shows "returns (score_field re_match v schema ctx)"
proof (cases "v = JNull")
  case True
  with ok show ?thesis
    by (simp add: score_field_def Let_def field_schema_ok_def)
next
  case False
  from ok have d: "is_dict schema"
    by (simp add: field_schema_ok_def)
  from ok obtain f1 where f1: "score_data_type v schema = Inr f1"
    using score_data_type_total [of schema v] by (auto simp: field_schema_ok_def returns_iff)
  from ok obtain f2 where f2: "score_enum_match v schema = Inr f2"
    using score_enum_match_total [of schema v] by (auto simp: field_schema_ok_def returns_iff)
  from ok call obtain f3 where f3: "score_pattern_match re_match v schema = Inr f3"
    using score_pattern_match_total [of schema re_match v] by (auto simp: field_schema_ok_def returns_iff)
  from ok obtain f4 where f4: "score_range_validation v schema = Inr f4"
    using score_range_validation_total [of schema v] by (auto simp: field_schema_ok_def returns_iff)
  from ok obtain f5 where f5: "score_length_validation v schema = Inr f5"
    using score_length_validation_total [of schema v] by (auto simp: field_schema_ok_def returns_iff)
  let ?ctx = "if ctx = JNull then JObj [] else ctx"
  from context_factor_total [OF ctx] obtain b where
    b: "py_in (JStr ''original_text'') ?ctx = Inr b"
    and bt: "b \<longrightarrow> (\<exists>t. py_get ''original_text'' ?ctx = Some t \<and> is_str t)"
    by blast
  show ?thesis
  proof (cases b)
    case False
    with d \<open>v \<noteq> JNull\<close> f1 f2 f3 f4 f5 b show ?thesis
      by (simp add: score_field_def Let_def)
  next
    case True
    with bt obtain t where t: "py_get ''original_text'' ?ctx = Some t" "is_str t"
      by blast
    then have "returns (score_context_relevance v t)"
      by (intro score_context_relevance_total)
    then obtain f6 where f6: "score_context_relevance v t = Inr f6"
      by (rule returnsE)
    with d \<open>v \<noteq> JNull\<close> f1 f2 f3 f4 f5 b True t show ?thesis
      by (simp add: score_field_def Let_def)
  qed
qed


text \<open>
  Claim C3. Every score that \<open>score_field\<close> returns lies within 0 and 1, and it returns
  one on every field schema whose constraints are well typed, provided the regular
  expression engine raises nothing but \<open>re.error\<close> on the schema's pattern. For an absent
  value (\<open>None\<close>) the score is exactly 0.0 when the schema's \<open>required\<close> entry is true
  and exactly 0.5 when it is not.
\<close>

theorem score_field_range:
  "(\<forall>s. score_field re_match v schema ctx = Inr s \<longrightarrow> 0 \<le> s \<and> s \<le> 1)
   \<and> (field_schema_ok schema \<and> context_ok ctx \<and> pattern_call_ok re_match v schema
        \<longrightarrow> returns (score_field re_match v schema ctx))
   \<and> (is_dict schema \<and> py_get ''required'' schema = Some (JBool True)
        \<longrightarrow> score_field re_match JNull schema ctx = Inr 0.0)
   \<and> (is_dict schema
        \<and> \<not> py_truthy (case py_get ''required'' schema of Some r \<Rightarrow> r | None \<Rightarrow> JBool False)
        \<longrightarrow> score_field re_match JNull schema ctx = Inr 0.5)
   \<and> (is_dict schema
        \<and> py_truthy (case py_get ''required'' schema of Some r \<Rightarrow> r | None \<Rightarrow> JBool False)
        \<longrightarrow> score_field re_match JNull schema ctx = Inr 0.0)"
  using score_field_clamped [of re_match v schema ctx] score_field_total [of schema ctx re_match v]
    score_field_absent [of schema re_match ctx]
  by auto

text \<open>
  The scenario of the specification: an age of -5 under \<open>minimum: 0\<close> scores 0.3, a name
  that does not match its pattern scores 0.4; an absent required field scores 0.0 and an
  absent optional field 0.5. The engine of the example finds no match.
\<close>

theorem score_field_range_witness:
  "score_field (\<lambda>p s. ReNoMatch) (JInt (- 5)) (JObj [(''type'', JStr ''integer''), (''minimum'', JInt 0)]) JNull
     = Inr 0.3
   \<and> 0 \<le> (0.3 :: rat) \<and> (0.3 :: rat) \<le> 1
   \<and> returns (score_field (\<lambda>p s. ReNoMatch) (JStr ''ann'')
                 (JObj [(''type'', JStr ''string''), (''pattern'', JStr ''^[A-Z]''),
                        (''required'', JBool True)]) JNull)
   \<and> score_field (\<lambda>p s. ReNoMatch) JNull
         (JObj [(''type'', JStr ''string''), (''pattern'', JStr ''^[A-Z]''), (''required'', JBool True)])
         JNull = Inr 0.0
   \<and> score_field (\<lambda>p s. ReNoMatch) JNull (JObj [(''type'', JStr ''integer''), (''minimum'', JInt 0)])
         JNull = Inr 0.5"
proof -
  let ?age = "JObj [(''type'', JStr ''integer''), (''minimum'', JInt 0)]"
  let ?name = "JObj [(''type'', JStr ''string''), (''pattern'', JStr ''^[A-Z]''),
                     (''required'', JBool True)]"
  let ?re = "\<lambda>(p :: string) (s :: string). ReNoMatch"
  have v: "score_field ?re (JInt (- 5)) ?age JNull = Inr 0.3"
    by code_simp
  have ok1: "field_schema_ok ?name \<and> context_ok JNull \<and> pattern_call_ok ?re (JStr ''ann'') ?name"
    by (simp add: field_schema_ok_def context_ok_def is_number_def pattern_call_ok_def)
  have ok2: "is_dict ?name \<and> py_get ''required'' ?name = Some (JBool True)"
    by simp
  have ok3: "is_dict ?age
      \<and> \<not> py_truthy (case py_get ''required'' ?age of Some r \<Rightarrow> r | None \<Rightarrow> JBool False)"
    by simp
  note a = score_field_range [of ?re "JInt (- 5)" ?age JNull]
  note m = score_field_range [of ?re "JStr ''ann''" ?name JNull]
  note n = score_field_range [of ?re JNull ?name JNull]
  note o = score_field_range [of ?re JNull ?age JNull]
  have 1: "0 \<le> (0.3 :: rat) \<and> (0.3 :: rat) \<le> 1"
    using a v by blast
  have 2: "returns (score_field ?re (JStr ''ann'') ?name JNull)"
    using m ok1 by blast
  have 3: "score_field ?re JNull ?name JNull = Inr 0.0"
    using n ok2 by blast
  have 4: "score_field ?re JNull ?age JNull = Inr 0.5"
    using o ok3 by blast
  from v 1 2 3 4 show ?thesis by blast
qed

text \<open>When the engine raises on the pattern, so does \<open>score_field\<close>.\<close>

lemma score_field_engine_raises:
  "score_field (\<lambda>p s. ReRaise OverflowError) (JStr ''abc'')
     (JObj [(''type'', JStr ''string''), (''pattern'', JStr ''a{99999999999}'')]) JNull
   = Inl OverflowError"
  by code_simp

section \<open>Leaf fields of a schema\<close>

text \<open>
  The leaves reachable through \<^verbatim>\<open>properties\<close>: a property without a \<^verbatim>\<open>properties\<close> key of
  its own is a leaf, and its path is the list of property names leading to it.
\<close>

fun leaf_items :: "json \<Rightarrow> (string list \<times> json) list" where
  "leaf_items schema =
     concat (map (\<lambda>(key, value).
                    if has_key ''properties'' value
                    then map (\<lambda>(p, leaf). (key # p, leaf)) (leaf_items value)
                    else [([key], value)])
                 (properties schema))"

fun leaf_count :: "json \<Rightarrow> nat" where
  "leaf_count schema =
     sum_list (map (\<lambda>(key, value).
                      if has_key ''properties'' value then leaf_count value else 1)
                   (properties schema))"

text \<open>The key that \<open>flatten_schema\<close> builds for a property, and for a whole path.\<close>

definition key_of :: "string \<Rightarrow> string \<Rightarrow> string" where
  "key_of prefix key = (if prefix \<noteq> [] then prefix @ ''.'' @ key else key)"

fun path_key :: "string \<Rightarrow> string list \<Rightarrow> string" where
  "path_key prefix [] = prefix"
| "path_key prefix (k # ks) = path_key (key_of prefix k) ks"

text \<open>Property names without a dot, at every level, and not empty at the top level.\<close>

definition dot_free :: "string \<Rightarrow> bool" where
  "dot_free name = (CHR ''.'' \<notin> set name)"

fun dot_free_names :: "json \<Rightarrow> bool" where
  "dot_free_names schema =
     list_all (\<lambda>(key, value). dot_free key \<and> dot_free_names value) (properties schema)"

definition top_names_nonempty :: "json \<Rightarrow> bool" where
  "top_names_nonempty schema = list_all (\<lambda>(key, value). key \<noteq> []) (properties schema)"

definition names_ok :: "json \<Rightarrow> bool" where
  "names_ok schema = (dot_free_names schema \<and> top_names_nonempty schema)"

definition dotted :: "string list \<Rightarrow> string" where
  "dotted ks = concat (map (\<lambda>k. CHR ''.'' # k) ks)"

lemma dotted_simps [simp]:
  "dotted [] = []" "dotted (k # ks) = CHR ''.'' # k @ dotted ks"
  by (simp_all add: dotted_def)

lemma path_key_nonempty_prefix:
  "prefix \<noteq> [] \<Longrightarrow> path_key prefix ks = prefix @ dotted ks"
  by (induction ks arbitrary: prefix) (simp_all add: key_of_def)

lemma path_key_top:
  "k \<noteq> [] \<Longrightarrow> path_key [] (k # ks) = k @ dotted ks"
  by (simp add: key_of_def path_key_nonempty_prefix)

lemma split_on_nonempty: "split_on c s \<noteq> []"
  by (induction s) (auto split: list.splits)

lemma split_on_dot_free:
  "dot_free k \<Longrightarrow> split_on CHR ''.'' (k @ CHR ''.'' # rest) = k # split_on CHR ''.'' rest"
  by (induction k) (auto simp: dot_free_def split: list.splits)

lemma split_on_dot_free_end:
  "dot_free k \<Longrightarrow> split_on CHR ''.'' k = [k]"
  by (induction k) (auto simp: dot_free_def split: list.splits)

lemma split_on_dotted:
  "dot_free k \<Longrightarrow> list_all dot_free ks \<Longrightarrow> split_on CHR ''.'' (k @ dotted ks) = k # ks"
proof (induction ks arbitrary: k)
  case Nil
  then show ?case by (simp add: split_on_dot_free_end)
next
  case (Cons a ks)
  then show ?case by (simp add: split_on_dot_free)
qed

lemma dotted_inj:
  assumes "list_all dot_free p" "list_all dot_free q" "dotted p = dotted q"
  shows "p = q"
proof -
  have "split_on CHR ''.'' ([] @ dotted p) = [] # p" "split_on CHR ''.'' ([] @ dotted q) = [] # q"
    using assms(1,2) by (simp_all only: split_on_dotted [of "[]"] dot_free_def list.set empty_iff not_False_eq_True)
  with assms(3) show ?thesis by simp
qed


lemma distinct_keys_appendD:
  "distinct (map fst (xs @ ys)) \<Longrightarrow> distinct (map fst xs)"
  by simp

lemma update_fresh:
  "k \<notin> set (map fst d) \<Longrightarrow> AList.update k v d = d @ [(k, v)]"
  by (induction d) auto

lemma dict_update_fresh:
  "distinct (map fst (d @ e)) \<Longrightarrow> dict_update d e = d @ e"
proof (induction e arbitrary: d)
  case Nil
  then show ?case by (simp add: dict_update_def)
next
  case (Cons a e)
  obtain k v where a: "a = (k, v)" by (cases a)
  with Cons.prems have fresh: "k \<notin> set (map fst d)" by auto
  have "dict_update d (a # e) = dict_update (AList.update k v d) e"
    by (simp add: dict_update_def a)
  also have "\<dots> = dict_update (d @ [(k, v)]) e"
    using fresh by (simp add: update_fresh)
  also have "\<dots> = (d @ [(k, v)]) @ e"
    using Cons.prems a by (intro Cons.IH) simp
  finally show ?case by (simp add: a)
qed

text \<open>The loop of \<open>flatten_schema\<close> appends, as long as the keys it produces are new.\<close>

lemma fold_flatten_append:
  assumes "distinct (map fst (acc @ concat (map (\<lambda>(key, value).
              if has_key ''properties'' value then F key value else [(K key, value)]) ps)))"
  shows "fold (\<lambda>(key, value) flattened.
                 if has_key ''properties'' value then dict_update flattened (F key value)
                 else AList.update (K key) value flattened) ps acc
         = acc @ concat (map (\<lambda>(key, value).
              if has_key ''properties'' value then F key value else [(K key, value)]) ps)"
  using assms
proof (induction ps arbitrary: acc)
  case Nil
  then show ?case by simp
next
  case (Cons a ps)
  obtain key val where a: "a = (key, val)" by (cases a)
  let ?g = "\<lambda>(key, value). if has_key ''properties'' value then F key value else [(K key, value)]"
  let ?step = "\<lambda>(key, value) flattened.
                 if has_key ''properties'' value then dict_update flattened (F key value)
                 else AList.update (K key) value flattened"
  have d: "distinct (map fst (acc @ ?g a @ concat (map ?g ps)))"
    using Cons.prems by simp
  have step: "?step a acc = acc @ ?g a"
  proof (cases "has_key ''properties'' val")
    case True
    from d have "distinct (map fst ((acc @ F key val) @ concat (map ?g ps)))"
      by (simp add: a True)
    then have "distinct (map fst (acc @ F key val))"
      by (rule distinct_keys_appendD)
    then show ?thesis by (simp add: a True dict_update_fresh)
  next
    case False
    from d have "K key \<notin> set (map fst acc)"
      by (auto simp: a False)
    then show ?thesis by (simp add: a False update_fresh)
  qed
  have "fold ?step (a # ps) acc = fold ?step ps (acc @ ?g a)"
    using step by simp
  also have "\<dots> = (acc @ ?g a) @ concat (map ?g ps)"
    using d by (intro Cons.IH) simp
  finally show ?case by simp
qed


declare flatten_schema.simps [simp del] leaf_items.simps [simp del] leaf_count.simps [simp del]
  dot_free_names.simps [simp del] is_schema.simps [simp del]

lemma has_key_py_get: "has_key k j \<longleftrightarrow> py_get k j \<noteq> None"
  by (cases j) (auto simp: map_of_eq_None_iff)

lemma properties_no_key: "\<not> has_key ''properties'' schema \<Longrightarrow> properties schema = []"
  by (simp add: properties_def has_key_py_get)

lemma is_schema_child:
  assumes "is_schema schema" "(key, value) \<in> set (properties schema)"
  shows "is_schema value"
proof (cases "py_get ''properties'' schema")
  case None
  with assms(2) show ?thesis by (simp add: properties_def)
next
  case (Some p)
  with assms(1) have "list_all (\<lambda>(k, v). is_schema v) (properties schema)"
    by (simp add: is_schema.simps [of schema])
  with assms(2) show ?thesis
    by (auto simp: list_all_iff)
qed

lemma is_schema_distinct_properties:
  assumes "is_schema schema"
  shows "distinct (map fst (properties schema))"
proof (cases "py_get ''properties'' schema")
  case None
  then show ?thesis by (simp add: properties_def)
next
  case (Some p)
  with assms have "distinct_keys p"
    by (simp add: is_schema.simps [of schema])
  with Some show ?thesis
    by (simp add: properties_def distinct_keys_def)
qed

lemma dot_free_names_child:
  assumes "dot_free_names schema" "(key, value) \<in> set (properties schema)"
  shows "dot_free key" "dot_free_names value"
  using assms by (auto simp: dot_free_names.simps [of schema] list_all_iff)

lemma leaf_items_cases:
  assumes "(p, leaf) \<in> set (leaf_items schema)"
  obtains key where "p = [key]" "(key, leaf) \<in> set (properties schema)"
      "\<not> has_key ''properties'' leaf"
    | key child q where "p = key # q" "(key, child) \<in> set (properties schema)"
      "has_key ''properties'' child" "(q, leaf) \<in> set (leaf_items child)"
  using assms by (subst (asm) leaf_items.simps) (auto split: if_splits)

lemma leaf_items_dot_free:
  "dot_free_names schema \<Longrightarrow> (p, leaf) \<in> set (leaf_items schema) \<Longrightarrow> list_all dot_free p"
proof (induction p arbitrary: schema)
  case Nil
  from Nil.prems(2) show ?case by (rule leaf_items_cases) simp_all
next
  case (Cons k q)
  from Cons.prems(2) show ?case
  proof (rule leaf_items_cases)
    fix key
    assume "k # q = [key]" "(key, leaf) \<in> set (properties schema)"
    with Cons.prems(1) show ?thesis
      using dot_free_names_child(1) by auto
  next
    fix key child q'
    assume *: "k # q = key # q'" "(key, child) \<in> set (properties schema)"
      "(q', leaf) \<in> set (leaf_items child)"
    with Cons.prems(1) have "dot_free key" "dot_free_names child"
      using dot_free_names_child by blast+
    with * Cons.IH [of child] show ?thesis by simp
  qed
qed

lemma leaf_items_head:
  assumes "(p, leaf) \<in> set (leaf_items schema)"
  obtains key q where "p = key # q" "key \<in> set (map fst (properties schema))"
  using assms by (rule leaf_items_cases) force+


lemma distinct_concat_by_head:
  assumes "distinct (map fst ps)"
    and "\<And>k v. (k, v) \<in> set ps \<Longrightarrow> distinct (G k v)"
    and "\<And>k v p. (k, v) \<in> set ps \<Longrightarrow> p \<in> set (G k v) \<Longrightarrow> \<exists>q. p = k # q"
  shows "distinct (concat (map (\<lambda>(k, v). G k v) ps))"
  using assms
proof (induction ps)
  case Nil
  then show ?case by simp
next
  case (Cons a ps)
  obtain k v where a: "a = (k, v)" by (cases a)
  have 1: "distinct (G k v)"
    using Cons.prems(2) [of k v] a by simp
  have 2: "distinct (concat (map (\<lambda>(k, v). G k v) ps))"
  proof (rule Cons.IH)
    show "distinct (map fst ps)"
      using Cons.prems(1) by simp
    show "distinct (G k v)" if "(k, v) \<in> set ps" for k v
      using that Cons.prems(2) [of k v] by simp
    show "\<exists>q. p = k # q" if "(k, v) \<in> set ps" "p \<in> set (G k v)" for k v p
      using that Cons.prems(3) [of k v p] by simp
  qed
  have 3: "set (G k v) \<inter> set (concat (map (\<lambda>(k, v). G k v) ps)) = {}"
  proof (rule ccontr)
    assume "set (G k v) \<inter> set (concat (map (\<lambda>(k, v). G k v) ps)) \<noteq> {}"
    then obtain p k' v' where p: "p \<in> set (G k v)" "(k', v') \<in> set ps" "p \<in> set (G k' v')"
      by auto
    from p(1) obtain q where "p = k # q"
      using Cons.prems(3) [of k v p] a by auto
    moreover from p(2,3) obtain q' where "p = k' # q'"
      using Cons.prems(3) [of k' v' p] by auto
    ultimately have "k = k'" by simp
    with p(2) have "k \<in> set (map fst ps)" by force
    with Cons.prems(1) a show False by simp
  qed
  from 1 2 3 show ?case by (simp add: a)
qed

lemma leaf_paths_unfold:
  "map fst (leaf_items schema) =
     concat (map (\<lambda>(key, value).
                    if has_key ''properties'' value
                    then map (\<lambda>p. key # p) (map fst (leaf_items value)) else [[key]])
                 (properties schema))"
proof -
  have "map fst (leaf_items schema) =
      concat (map (map fst \<circ> (\<lambda>(key, value).
                    if has_key ''properties'' value
                    then map (\<lambda>(p, leaf). (key # p, leaf)) (leaf_items value)
                    else [([key], value)])) (properties schema))"
    by (subst leaf_items.simps) (simp add: map_concat)
  also have "map fst \<circ> (\<lambda>(key, value).
                    if has_key ''properties'' value
                    then map (\<lambda>(p, leaf). (key # p, leaf)) (leaf_items value)
                    else [([key], value)])
      = (\<lambda>(key, value).
                    if has_key ''properties'' value
                    then map (\<lambda>p. key # p) (map fst (leaf_items value)) else [[key]])"
    by (auto simp: fun_eq_iff case_prod_beta)
  finally show ?thesis .
qed

lemma distinct_leaf_paths:
  "is_schema schema \<Longrightarrow> distinct (map fst (leaf_items schema))"
proof (induction schema rule: measure_induct_rule [of size])
  case (less schema)
  show ?case
    unfolding leaf_paths_unfold [of schema]
  proof (rule distinct_concat_by_head)
    show "distinct (map fst (properties schema))"
      using less.prems by (rule is_schema_distinct_properties)
  next
    fix k v
    assume kv: "(k, v) \<in> set (properties schema)"
    then have "distinct (map fst (leaf_items v))"
      using less.IH [of v] less.prems by (simp add: size_properties is_schema_child)
    then have "distinct (map ((#) k) (map fst (leaf_items v)))"
      by (subst distinct_map) simp
    then show "distinct (if has_key ''properties'' v
                         then map ((#) k) (map fst (leaf_items v)) else [[k]])"
      by simp
  next
    fix k v p
    assume "p \<in> set (if has_key ''properties'' v
                       then map ((#) k) (map fst (leaf_items v)) else [[k]])"
    then show "\<exists>q. p = k # q"
      by (auto split: if_splits)
  qed
qed


text \<open>Different leaf paths get different keys, when no name has a dot.\<close>

lemma path_key_inj:
  assumes p: "list_all dot_free p" "p \<noteq> []" and q: "list_all dot_free q" "q \<noteq> []"
    and top: "prefix \<noteq> [] \<or> (hd p \<noteq> [] \<and> hd q \<noteq> [])"
    and eq: "path_key prefix p = path_key prefix q"
  shows "p = q"
proof (cases "prefix = []")
  case False
  with eq have "dotted p = dotted q"
    by (simp add: path_key_nonempty_prefix)
  with p(1) q(1) show ?thesis by (rule dotted_inj)
next
  case True
  from p(2) obtain k ks where pk: "p = k # ks" by (cases p) auto
  from q(2) obtain l ls where ql: "q = l # ls" by (cases q) auto
  from True top pk ql have ne: "k \<noteq> []" "l \<noteq> []" by auto
  from eq True pk ql have "path_key [] (k # ks) = path_key [] (l # ls)"
    by simp
  then have "k @ dotted ks = l @ dotted ls"
    by (simp only: path_key_top [OF ne(1)] path_key_top [OF ne(2)])
  then have "split_on CHR ''.'' (k @ dotted ks) = split_on CHR ''.'' (l @ dotted ls)"
    by simp
  moreover have "split_on CHR ''.'' (k @ dotted ks) = k # ks"
    using p(1) pk by (intro split_on_dotted) simp_all
  moreover have "split_on CHR ''.'' (l @ dotted ls) = l # ls"
    using q(1) ql by (intro split_on_dotted) simp_all
  ultimately show ?thesis
    using pk ql by simp
qed

lemma flatten_schema_key_of:
  "flatten_schema schema prefix =
     (if has_key ''properties'' schema then
        fold (\<lambda>(key, value) flattened.
                if has_key ''properties'' value
                then dict_update flattened (flatten_schema value (key_of prefix key))
                else AList.update (key_of prefix key) value flattened)
             (properties schema) []
      else [])"
  by (subst flatten_schema.simps) (simp add: key_of_def Let_def cong: if_cong)

lemma flatten_schema_leaf_items:
  "is_schema schema \<Longrightarrow> dot_free_names schema
   \<Longrightarrow> prefix \<noteq> [] \<or> top_names_nonempty schema
   \<Longrightarrow> flatten_schema schema prefix
       = map (\<lambda>(p, leaf). (path_key prefix p, leaf)) (leaf_items schema)"
proof (induction schema arbitrary: prefix rule: measure_induct_rule [of size])
  case (less schema)
  let ?ps = "properties schema"
  let ?F = "\<lambda>key value. map (\<lambda>(p, leaf). (path_key (key_of prefix key) p, leaf)) (leaf_items value)"
  let ?g = "\<lambda>(key, value). if has_key ''properties'' value then ?F key value
                           else [(key_of prefix key, value)]"
  have target: "map (\<lambda>(p, leaf). (path_key prefix p, leaf)) (leaf_items schema)
                  = concat (map ?g ?ps)"
    by (subst leaf_items.simps)
      (auto simp: map_concat case_prod_beta comp_def intro!: arg_cong [where f = concat])
  have paths: "map fst (concat (map ?g ?ps)) = map (path_key prefix) (map fst (leaf_items schema))"
    unfolding target [symmetric] by (simp add: case_prod_beta comp_def)
  have inj: "inj_on (path_key prefix) (set (map fst (leaf_items schema)))"
  proof (rule inj_onI)
    fix p q
    assume "p \<in> set (map fst (leaf_items schema))" "q \<in> set (map fst (leaf_items schema))"
    then obtain lp lq where pq: "(p, lp) \<in> set (leaf_items schema)" "(q, lq) \<in> set (leaf_items schema)"
      by auto
    assume eq: "path_key prefix p = path_key prefix q"
    have dp: "list_all dot_free p" "list_all dot_free q"
      using less.prems(2) pq by (auto intro: leaf_items_dot_free)
    from pq(1) obtain k ks where k: "p = k # ks" "k \<in> set (map fst ?ps)"
      by (rule leaf_items_head)
    from pq(2) obtain l ls where l: "q = l # ls" "l \<in> set (map fst ?ps)"
      by (rule leaf_items_head)
    have "prefix \<noteq> [] \<or> (hd p \<noteq> [] \<and> hd q \<noteq> [])"
      using less.prems(3) k l by (auto simp: top_names_nonempty_def list_all_iff)
    with dp k l eq show "p = q"
      by (intro path_key_inj [of p q prefix]) simp_all
  qed
  have dist: "distinct (map fst ([] @ concat (map ?g ?ps)))"
    using distinct_leaf_paths [OF less.prems(1)] inj
    by (simp only: append_Nil paths distinct_map)
  show ?case
  proof (cases "has_key ''properties'' schema")
    case False
    then show ?thesis
      by (subst flatten_schema.simps, subst leaf_items.simps) (simp add: properties_no_key)
  next
    case True
    have "flatten_schema schema prefix =
        fold (\<lambda>(key, value) flattened.
                if has_key ''properties'' value
                then dict_update flattened (flatten_schema value (key_of prefix key))
                else AList.update (key_of prefix key) value flattened) ?ps []"
      using True by (subst flatten_schema_key_of) simp
    also have "\<dots> =
        fold (\<lambda>(key, value) flattened.
                if has_key ''properties'' value
                then dict_update flattened (?F key value)
                else AList.update (key_of prefix key) value flattened) ?ps []"
    proof (rule fold_cong [OF refl refl])
      fix x
      assume x: "x \<in> set ?ps"
      obtain key child where kc: "x = (key, child)" by (cases x)
      have "flatten_schema child (key_of prefix key) = ?F key child"
      proof (rule less.IH)
        show "size child < size schema"
          using x kc by (auto intro: size_properties)
        show "is_schema child"
          using less.prems(1) x kc by (auto intro: is_schema_child)
        show "dot_free_names child"
          using less.prems(2) x kc by (auto intro: dot_free_names_child)
        have "prefix \<noteq> [] \<or> key \<noteq> []"
          using less.prems(3) x kc by (auto simp: top_names_nonempty_def list_all_iff)
        then show "key_of prefix key \<noteq> [] \<or> top_names_nonempty child"
          by (auto simp: key_of_def)
      qed
      then show "(case x of (key, value) \<Rightarrow> \<lambda>flattened.
                if has_key ''properties'' value
                then dict_update flattened (flatten_schema value (key_of prefix key))
                else AList.update (key_of prefix key) value flattened)
            = (case x of (key, value) \<Rightarrow> \<lambda>flattened.
                if has_key ''properties'' value
                then dict_update flattened (?F key value)
                else AList.update (key_of prefix key) value flattened)"
        by (simp add: kc cong: if_cong)
    qed
    also have "\<dots> = [] @ concat (map ?g ?ps)"
      using dist by (rule fold_flatten_append [where K = "key_of prefix" and F = ?F])
    finally show ?thesis
      by (simp add: target)
  qed
qed


lemma leaf_count_leaf_items: "leaf_count schema = length (leaf_items schema)"
proof (induction schema rule: measure_induct_rule [of size])
  case (less schema)
  let ?g = "\<lambda>(key, value). if has_key ''properties'' value
                 then map (\<lambda>(p, leaf). (key # p, leaf)) (leaf_items value)
                 else [([key], value)]"
  have eq: "map (\<lambda>(key, value). if has_key ''properties'' value then leaf_count value else 1)
          (properties schema)
      = map (length \<circ> ?g) (properties schema)"
  proof (rule map_cong [OF refl])
    fix x
    assume x: "x \<in> set (properties schema)"
    obtain key child where kc: "x = (key, child)" by (cases x)
    have "leaf_count child = length (leaf_items child)"
      using x kc by (intro less.IH) (auto intro: size_properties)
    then show "(case x of (key, value) \<Rightarrow>
                  if has_key ''properties'' value then leaf_count value else 1)
             = (length \<circ> ?g) x"
      by (simp add: kc)
  qed
  have "leaf_count schema
      = sum_list (map (\<lambda>(key, value). if has_key ''properties'' value then leaf_count value else 1)
          (properties schema))"
    by (subst leaf_count.simps) simp
  also have "\<dots> = sum_list (map (length \<circ> ?g) (properties schema))"
    by (simp only: eq)
  also have "\<dots> = length (concat (map ?g (properties schema)))"
    by (simp only: length_concat map_map)
  also have "\<dots> = length (leaf_items schema)"
    by (subst (2) leaf_items.simps) simp
  finally show ?case .
qed

lemma dict_update_distinct:
  "distinct (map fst d) \<Longrightarrow> distinct (map fst (dict_update d e))"
  unfolding dict_update_def
  by (induction e arbitrary: d) (auto simp: distinct_update)

lemma fold_flatten_distinct:
  "distinct (map fst acc) \<Longrightarrow>
   distinct (map fst (fold (\<lambda>(key, value) flattened.
                if has_key ''properties'' value
                then dict_update flattened (F key value)
                else AList.update (K key) value flattened) ps acc))"
  by (induction ps arbitrary: acc) (auto simp: distinct_update dict_update_distinct)

lemma flatten_schema_distinct: "distinct (map fst (flatten_schema schema prefix))"
  by (subst flatten_schema_key_of) (simp add: fold_flatten_distinct)

lemma flatten_schema_no_properties:
  "properties schema = [] \<Longrightarrow> flatten_schema schema prefix = []"
  by (subst flatten_schema.simps) simp

text \<open>
  Claim C8, as the code has it. The result of \<open>flatten_schema\<close> never has a key twice,
  and a node with no properties flattens to the empty mapping. Its size is the number of
  leaves reachable through \<open>properties\<close> when no property name contains a dot and no
  top-level name is empty; a dotted name can collide with the path of a nested leaf.
\<close>

theorem flatten_schema_size:
  "distinct (map fst (flatten_schema schema prefix))
   \<and> (properties schema = [] \<longrightarrow> flatten_schema schema prefix = [])
   \<and> (is_schema schema \<and> names_ok schema
        \<longrightarrow> length (flatten_schema schema []) = leaf_count schema)"
proof (intro conjI impI)
  show "distinct (map fst (flatten_schema schema prefix))"
    by (rule flatten_schema_distinct)
  show "flatten_schema schema prefix = []" if "properties schema = []"
    using that by (rule flatten_schema_no_properties)
  show "length (flatten_schema schema []) = leaf_count schema"
    if "is_schema schema \<and> names_ok schema"
    using that
    by (simp add: flatten_schema_leaf_items names_ok_def leaf_count_leaf_items)
qed

theorem flatten_schema_size_witness:
  "length (flatten_schema
     (JObj [(''type'', JStr ''object''),
            (''properties'', JObj
               [(''name'', JObj [(''type'', JStr ''string''), (''required'', JBool True)]),
                (''age'', JObj [(''type'', JStr ''integer''), (''minimum'', JInt 0)]),
                (''address'', JObj [(''type'', JStr ''object''),
                   (''properties'', JObj [(''city'', JObj [(''type'', JStr ''string'')]),
                                          (''zip'', JObj [(''type'', JStr ''string'')])])])])]) [])
     = 4
   \<and> leaf_count
     (JObj [(''type'', JStr ''object''),
            (''properties'', JObj
               [(''name'', JObj [(''type'', JStr ''string''), (''required'', JBool True)]),
                (''age'', JObj [(''type'', JStr ''integer''), (''minimum'', JInt 0)]),
                (''address'', JObj [(''type'', JStr ''object''),
                   (''properties'', JObj [(''city'', JObj [(''type'', JStr ''string'')]),
                                          (''zip'', JObj [(''type'', JStr ''string'')])])])])]) = 4
   \<and> flatten_schema (JObj [(''type'', JStr ''object''), (''properties'', JObj [])]) [] = []"
proof -
  let ?s = "JObj [(''type'', JStr ''object''),
            (''properties'', JObj
               [(''name'', JObj [(''type'', JStr ''string''), (''required'', JBool True)]),
                (''age'', JObj [(''type'', JStr ''integer''), (''minimum'', JInt 0)]),
                (''address'', JObj [(''type'', JStr ''object''),
                   (''properties'', JObj [(''city'', JObj [(''type'', JStr ''string'')]),
                                          (''zip'', JObj [(''type'', JStr ''string'')])])])])]"
  let ?e = "JObj [(''type'', JStr ''object''), (''properties'', JObj [])]"
  have ok: "is_schema ?s \<and> names_ok ?s"
    by code_simp
  have n: "leaf_count ?s = 4"
    by code_simp
  have e: "properties ?e = []"
    by (simp add: properties_def)
  from flatten_schema_size [of ?s "[]"] ok n flatten_schema_size [of ?e "[]"] e
  show ?thesis by simp
qed

text \<open>
  A schema with the property \<open>user.name\<close> beside the object \<open>user\<close> with the property
  \<open>name\<close> has two leaves and one flattened key.
\<close>

theorem flatten_schema_size_counterexample:
  "is_schema (JObj [(''properties'', JObj
       [(''user.name'', JObj [(''type'', JStr ''string'')]),
        (''user'', JObj [(''properties'', JObj [(''name'', JObj [(''type'', JStr ''integer'')])])])])])
   \<and> leaf_count (JObj [(''properties'', JObj
       [(''user.name'', JObj [(''type'', JStr ''string'')]),
        (''user'', JObj [(''properties'', JObj [(''name'', JObj [(''type'', JStr ''integer'')])])])])]) = 2
   \<and> flatten_schema (JObj [(''properties'', JObj
       [(''user.name'', JObj [(''type'', JStr ''string'')]),
        (''user'', JObj [(''properties'', JObj [(''name'', JObj [(''type'', JStr ''integer'')])])])])]) []
     = [(''user.name'', JObj [(''type'', JStr ''integer'')])]"
  by code_simp

section \<open>Document segmentation (document_processor.py)\<close>










record text_chunk =
  chunk_text :: string
  chunk_id :: int
  start_pos :: int
  end_pos :: int
  token_count :: int
  sentence_count :: nat
  has_overlap :: "bool option"








definition get_overlap_sentences :: "string list \<Rightarrow> string list" where
  "get_overlap_sentences current_chunk =
     (if length current_chunk \<le> 2 then []
      else
        let overlap_count = min 2 (length current_chunk div 3)
        in if overlap_count > 0
           then drop (length current_chunk - overlap_count) current_chunk else [])"

text \<open>The state of the loop of \<^verbatim>\<open>chunk_document\<close>.\<close>

record chunking =
  chunks :: "text_chunk list"
  current_chunk :: "string list"
  current_tokens :: int
  next_id :: int
  text_position :: int


















lemma get_overlap_sentences_not_single:
  "get_overlap_sentences cur = [] \<or> length cur \<ge> 3"
  by (auto simp: get_overlap_sentences_def)









section \<open>Dependency graph and extraction order (schema_analyzer.py)\<close>



















section \<open>Schema segmentation (schema_analyzer.py)\<close>















section \<open>The chunks of a schema partition its fields\<close>






















































end
